theory Spec2Isabelle
  imports Complex_Main "HOL-Library.Product_Lexorder" "HOL-Library.Word"
begin

section \<open>Data model\<close>

text \<open>
  The allocation engine of \<^verbatim>\<open>sensitivity.py\<close> (\<^verbatim>\<open>load_demand\<close>, \<^verbatim>\<open>solve_allocation\<close>,
  \<^verbatim>\<open>run_sensitivity\<close>, \<^verbatim>\<open>marginal_value_per_hour\<close>) and the model and solution table of
  the stand-alone script \<^verbatim>\<open>optimize.py\<close>. Python floats are modelled as exact reals (no
  rounding, no NaN), Python ints as \<open>int\<close>. The demand frame that the engine works on is
  the list of its rows \<open>(pickup_community_area, hour, demand)\<close> in frame order; every demand
  is a number. A frame with a \<^verbatim>\<open>NaN\<close> demand, which \<^verbatim>\<open>load_demand\<close> lets through and on which
  PuLP raises when the cover constraint is built, is outside the model.

  The MILP solver (PuLP with CBC) is not part of the repository: it is a parameter, a
  function from the model that was built to the status and the variable values it
  reports. The solver's \<^verbatim>\<open>msg\<close> and \<^verbatim>\<open>time_limit\<close> settings are part of that parameter; a
  crash of the solver itself is not modelled. Every function that may call the solver
  returns, next to its result, the list of the models it submitted, in call order.
\<close>

type_synonym key = "int \<times> int"

type_synonym demand_table = "(int \<times> int \<times> real) list"

datatype py_error =
    KeyError_pair int int
  | KeyError_int int
  | KeyError_label string
  | ValueError_missing string string "string list"
  | ValueError_not_unique string
  | Astype_error
  | TypeError_round

datatype lp_cat = LpInteger | LpContinuous

datatype lp_status = Not_Solved | Optimal | Infeasible | Unbounded | Undefined

text \<open>
  The \<^verbatim>\<open>LpProblem\<close> built by \<^verbatim>\<open>solve_allocation\<close>: a variable \<open>x[k]\<close> (lower bound 0,
  category \<open>x_cat\<close>) for every key of \<open>x_vars\<close>, a continuous variable \<open>u[k]\<close> (lower
  bound 0) for every key of \<open>u_vars\<close>, the objective "minimise the sum of \<open>u[k]\<close> over
  \<open>objective\<close>", a constraint \<open>r * x[k] + u[k] \<ge> dv\<close> for every \<open>(k, r, dv)\<close> of \<open>cover\<close>
  and a constraint \<open>sum of x[k] over ks \<le> c\<close> for every \<open>(h, ks, c)\<close> of \<open>fleetcap\<close>.
\<close>

record lp_problem =
  x_cat :: lp_cat
  x_vars :: "key list"
  u_vars :: "key list"
  objective :: "key list"
  cover :: "(key \<times> real \<times> real) list"
  fleetcap :: "(int \<times> key list \<times> int) list"

text \<open>
  What a solve gives back: the status code, \<^verbatim>\<open>x[k].value()\<close> and \<^verbatim>\<open>u[k].value()\<close>
  (\<open>None\<close> for a variable without a value) and the wall-clock time of the call.
\<close>

record solver_out =
  sol_status :: lp_status
  x_value :: "key \<Rightarrow> real option"
  u_value :: "key \<Rightarrow> real option"
  elapsed :: real

type_synonym solver = "lp_problem \<Rightarrow> solver_out"

text \<open>A row of the \<^verbatim>\<open>allocations\<close> frame, with the source's column names.\<close>

record alloc_row =
  pickup_community_area :: int
  hour :: int
  demand :: real
  x_taxis :: real
  served :: real
  unmet :: real

text \<open>
  The \<^verbatim>\<open>summary\<close> dictionary; the keys \<^verbatim>\<open>F\<close>, \<^verbatim>\<open>r\<close> and \<^verbatim>\<open>int_vars\<close> are the fields
  \<open>fleet_F\<close>, \<open>rate_r\<close> and \<open>int_vars_flag\<close>.
\<close>

record summary =
  status :: lp_status
  runtime_sec :: real
  objective_unmet :: real
  demand_total :: real
  served_total :: real
  served_pct :: real
  fleet_F :: int
  rate_r :: real
  int_vars_flag :: bool

record alloc_result =
  allocations :: "alloc_row list"
  summary_of :: summary

section \<open>solve_allocation\<close>

definition A_of :: "demand_table \<Rightarrow> int list" where
  "A_of df = sort (remdups (map (\<lambda>(a, h, v). a) df))"

definition H_of :: "demand_table \<Rightarrow> int list" where
  "H_of df = sort (remdups (map (\<lambda>(a, h, v). h) df))"

text \<open>The dictionary \<^verbatim>\<open>d\<close>: a later row of the frame overwrites an earlier one.\<close>

definition d_of :: "demand_table \<Rightarrow> key \<rightharpoonup> real" where
  "d_of df = fold (\<lambda>(a, h, v) m. m((a, h) \<mapsto> v)) df Map.empty"

text \<open>Lines 45 to 49: the capacity dictionary, with keys the hours of the frame.\<close>

definition hour_caps_of :: "int list \<Rightarrow> int \<Rightarrow> (int \<rightharpoonup> int) option \<Rightarrow> int \<rightharpoonup> int" where
  "hour_caps_of H F hour_caps =
     (case hour_caps of
        None \<Rightarrow> map_of (map (\<lambda>h. (h, F)) H)
      | Some hc \<Rightarrow> map_of (map (\<lambda>h. (h, case hc h of None \<Rightarrow> F | Some c \<Rightarrow> c)) H))"

text \<open>Lines 63 to 65: \<^verbatim>\<open>d[(a, h)]\<close> raises \<^verbatim>\<open>KeyError\<close> on a pair the frame has no row for.\<close>

fun cover_loop :: "(key \<rightharpoonup> real) \<Rightarrow> real \<Rightarrow> key list \<Rightarrow> py_error + (key \<times> real \<times> real) list" where
  "cover_loop d r [] = Inr []"
| "cover_loop d r ((a, h) # ks) =
     (case d (a, h) of
        None \<Rightarrow> Inl (KeyError_pair a h)
      | Some dv \<Rightarrow>
          (case cover_loop d r ks of
             Inl e \<Rightarrow> Inl e
           | Inr cs \<Rightarrow> Inr (((a, h), r, dv) # cs)))"

text \<open>Lines 68 and 69.\<close>

fun fleetcap_loop :: "(int \<rightharpoonup> int) \<Rightarrow> int list \<Rightarrow> int list \<Rightarrow> py_error + (int \<times> key list \<times> int) list" where
  "fleetcap_loop caps A [] = Inr []"
| "fleetcap_loop caps A (h # hs) =
     (case caps h of
        None \<Rightarrow> Inl (KeyError_int h)
      | Some c \<Rightarrow>
          (case fleetcap_loop caps A hs of
             Inl e \<Rightarrow> Inl e
           | Inr cs \<Rightarrow> Inr ((h, map (\<lambda>a. (a, h)) A, c) # cs)))"

text \<open>Lines 41 to 69: everything before the solver is called.\<close>

definition build_model ::
  "demand_table \<Rightarrow> int \<Rightarrow> real \<Rightarrow> bool \<Rightarrow> (int \<rightharpoonup> int) option \<Rightarrow> py_error + lp_problem" where
  "build_model df F r int_vars hour_caps =
     (let A = A_of df; H = H_of df; d = d_of df;
          caps = hour_caps_of H F hour_caps;
          keys = List.product A H
      in case cover_loop d r keys of
           Inl e \<Rightarrow> Inl e
         | Inr cov \<Rightarrow>
             (case fleetcap_loop caps A H of
                Inl e \<Rightarrow> Inl e
              | Inr fc \<Rightarrow>
                  Inr \<lparr>x_cat = (if int_vars then LpInteger else LpContinuous),
                       x_vars = keys, u_vars = keys, objective = keys,
                       cover = cov, fleetcap = fc\<rparr>))"

text \<open>Lines 79 to 86.\<close>

fun extract_loop :: "(key \<rightharpoonup> real) \<Rightarrow> real \<Rightarrow> solver_out \<Rightarrow> key list \<Rightarrow> py_error + alloc_row list" where
  "extract_loop d r out [] = Inr []"
| "extract_loop d r out ((a, h) # ks) =
     (let xv = (case x_value out (a, h) of None \<Rightarrow> 0 | Some v \<Rightarrow> v);
          uv = (case u_value out (a, h) of None \<Rightarrow> 0 | Some v \<Rightarrow> v)
      in case d (a, h) of
           None \<Rightarrow> Inl (KeyError_pair a h)
         | Some dv \<Rightarrow>
             (case extract_loop d r out ks of
                Inl e \<Rightarrow> Inl e
              | Inr sol \<Rightarrow>
                  Inr (\<lparr>pickup_community_area = a, hour = h, demand = dv, x_taxis = xv,
                        served = min dv (r * xv), unmet = uv\<rparr> # sol)))"

text \<open>Lines 89 to 105.\<close>

definition make_summary :: "solver_out \<Rightarrow> alloc_row list \<Rightarrow> int \<Rightarrow> real \<Rightarrow> bool \<Rightarrow> summary" where
  "make_summary out sol F r int_vars =
     (let total_demand = sum_list (map demand sol);
          total_unmet = sum_list (map unmet sol);
          total_served = sum_list (map served sol);
          pct = (if total_demand = 0 then 0 else total_served / total_demand)
      in \<lparr>status = sol_status out, runtime_sec = elapsed out,
          objective_unmet = total_unmet, demand_total = total_demand,
          served_total = total_served, served_pct = pct,
          fleet_F = F, rate_r = r, int_vars_flag = int_vars\<rparr>)"

definition solve_allocation ::
  "solver \<Rightarrow> demand_table \<Rightarrow> int \<Rightarrow> real \<Rightarrow> bool \<Rightarrow> (int \<rightharpoonup> int) option
     \<Rightarrow> lp_problem list \<times> (py_error + alloc_result)" where
  "solve_allocation solve df F r int_vars hour_caps =
     (case build_model df F r int_vars hour_caps of
        Inl e \<Rightarrow> ([], Inl e)
      | Inr prob \<Rightarrow>
          (let out = solve prob
           in case extract_loop (d_of df) r out (List.product (A_of df) (H_of df)) of
                Inl e \<Rightarrow> ([prob], Inl e)
              | Inr sol \<Rightarrow>
                  ([prob], Inr \<lparr>allocations = sol,
                                summary_of = make_summary out sol F r int_vars\<rparr>)))"

text \<open>
  Whether every pair of the product of the frame's zones and hours has a row, that is,
  whether no lookup \<^verbatim>\<open>d[(a, h)]\<close> can fail.
\<close>

definition covers :: "demand_table \<Rightarrow> bool" where
  "covers df = list_all (\<lambda>k. d_of df k \<noteq> None) (List.product (A_of df) (H_of df))"

text \<open>
  The capacity that \<^verbatim>\<open>int(hour_caps.get(h, F))\<close> yields for an hour: the override when the
  mapping lists the hour, the fleet size otherwise.
\<close>

definition eff_cap :: "int \<Rightarrow> (int \<rightharpoonup> int) option \<Rightarrow> int \<Rightarrow> int" where
  "eff_cap F hour_caps h =
     (case hour_caps of
        None \<Rightarrow> F
      | Some hc \<Rightarrow> (case hc h of None \<Rightarrow> F | Some c \<Rightarrow> c))"

section \<open>run_sensitivity\<close>

text \<open>
  Lines 115 to 120: the outer loop runs over \<^verbatim>\<open>r_grid\<close> and the inner one over \<^verbatim>\<open>F_grid\<close>,
  so the calls follow \<open>List.product r_grid F_grid\<close>. An exception of a solve leaves the loop.
\<close>

fun sensitivity_loop ::
  "solver \<Rightarrow> demand_table \<Rightarrow> bool \<Rightarrow> (real \<times> int) list \<Rightarrow> lp_problem list \<times> (py_error + summary list)" where
  "sensitivity_loop solve df int_vars [] = ([], Inr [])"
| "sensitivity_loop solve df int_vars ((r, F) # ps) =
     (case solve_allocation solve df F r int_vars None of
        (lg, Inl e) \<Rightarrow> (lg, Inl e)
      | (lg, Inr res) \<Rightarrow>
          (case sensitivity_loop solve df int_vars ps of
             (lg', Inl e) \<Rightarrow> (lg @ lg', Inl e)
           | (lg', Inr rows) \<Rightarrow> (lg @ lg', Inr (summary_of res # rows))))"

text \<open>
  Line 121: \<^verbatim>\<open>pd.DataFrame(rows)\<close> of an empty list has no columns, and \<^verbatim>\<open>sort_values\<close>
  raises \<^verbatim>\<open>KeyError\<close> for the label \<^verbatim>\<open>'r'\<close> it does not find. Otherwise the rows are sorted
  by \<open>(r, F)\<close>, lexicographically and stably.
\<close>

definition run_sensitivity ::
  "solver \<Rightarrow> demand_table \<Rightarrow> int list \<Rightarrow> real list \<Rightarrow> bool \<Rightarrow> lp_problem list \<times> (py_error + summary list)" where
  "run_sensitivity solve df F_grid r_grid int_vars =
     (case sensitivity_loop solve df int_vars (List.product r_grid F_grid) of
        (lg, Inl e) \<Rightarrow> (lg, Inl e)
      | (lg, Inr rows) \<Rightarrow>
          (lg, if rows = [] then Inl (KeyError_label ''r'')
               else Inr (sort_key (\<lambda>s. (rate_r s, fleet_F s)) rows)))"

section \<open>marginal_value_per_hour\<close>

record mv_row =
  mv_hour :: int
  deltaF_at_hour :: int
  unmet_reduction :: real

text \<open>Lines 137 to 143; \<open>hours\<close> is the full list of hours, \<open>hs\<close> what is left of the loop.\<close>

fun marginal_loop ::
  "solver \<Rightarrow> demand_table \<Rightarrow> int \<Rightarrow> real \<Rightarrow> int \<Rightarrow> bool \<Rightarrow> real \<Rightarrow> int list \<Rightarrow> int list
     \<Rightarrow> lp_problem list \<times> (py_error + mv_row list)" where
  "marginal_loop solve df F r delta int_vars base_unmet hours [] = ([], Inr [])"
| "marginal_loop solve df F r delta int_vars base_unmet hours (h # hs) =
     (let caps = (map_of (map (\<lambda>hh. (hh, F)) hours))(h \<mapsto> F + delta)
      in case solve_allocation solve df F r int_vars (Some caps) of
           (lg, Inl e) \<Rightarrow> (lg, Inl e)
         | (lg, Inr res_h) \<Rightarrow>
             (let du = base_unmet - objective_unmet (summary_of res_h)
              in case marginal_loop solve df F r delta int_vars base_unmet hours hs of
                   (lg', Inl e) \<Rightarrow> (lg @ lg', Inl e)
                 | (lg', Inr out) \<Rightarrow>
                     (lg @ lg', Inr (\<lparr>mv_hour = h, deltaF_at_hour = delta,
                                       unmet_reduction = du\<rparr> # out))))"

text \<open>
  Lines 132 to 144. As in \<open>run_sensitivity\<close>, sorting the frame of an empty list of rows
  raises \<^verbatim>\<open>KeyError\<close>, here for the label \<^verbatim>\<open>'hour'\<close>.
\<close>

definition marginal_value_per_hour ::
  "solver \<Rightarrow> demand_table \<Rightarrow> int \<Rightarrow> real \<Rightarrow> int \<Rightarrow> bool \<Rightarrow> lp_problem list \<times> (py_error + mv_row list)" where
  "marginal_value_per_hour solve df F r delta int_vars =
     (case solve_allocation solve df F r int_vars None of
        (lg, Inl e) \<Rightarrow> (lg, Inl e)
      | (lg, Inr base) \<Rightarrow>
          (let base_unmet = objective_unmet (summary_of base);
               hours = H_of df
           in case marginal_loop solve df F r delta int_vars base_unmet hours hours of
                (lg', Inl e) \<Rightarrow> (lg @ lg', Inl e)
              | (lg', Inr out) \<Rightarrow>
                  (lg @ lg', if out = [] then Inl (KeyError_label ''hour'')
                             else Inr (sort_key mv_hour out))))"

text \<open>The capacity schedule that is \<open>F\<close> at every hour except \<open>h\<close>, where it is \<open>F + delta\<close>.\<close>

definition bumped :: "int \<Rightarrow> int \<Rightarrow> int \<Rightarrow> int \<rightharpoonup> int" where
  "bumped F delta h = (\<lambda>hh. Some (if hh = h then F + delta else F))"

section \<open>The script optimize.py\<close>

definition FLEET_SIZE :: int where
  "FLEET_SIZE = 3528"

definition TRIPS_PER_TAXI_PER_HOUR :: real where
  "TRIPS_PER_TAXI_PER_HOUR = 2"

text \<open>
  Lines 14 to 39 of the script: the same model with the constants above, integer
  assignment variables and \<^verbatim>\<open>dem.get((a, h), 0.0)\<close> as right-hand side of the cover
  constraints.
\<close>

definition optimize_model :: "demand_table \<Rightarrow> lp_problem" where
  "optimize_model demand_df =
     (let areas = A_of demand_df; hours = H_of demand_df; dem = d_of demand_df;
          r = TRIPS_PER_TAXI_PER_HOUR;
          keys = List.product areas hours
      in \<lparr>x_cat = LpInteger, x_vars = keys, u_vars = keys, objective = keys,
          cover = map (\<lambda>k. (k, r, case dem k of None \<Rightarrow> 0 | Some v \<Rightarrow> v)) keys,
          fleetcap = map (\<lambda>h. (h, map (\<lambda>a. (a, h)) areas, FLEET_SIZE)) hours\<rparr>)"

text \<open>Python's \<^verbatim>\<open>round\<close> of a float to an int: to the nearest integer, a tie to the even one.\<close>

definition py_round :: "real \<Rightarrow> int" where
  "py_round v =
     (let f = \<lfloor>v\<rfloor>; frac = v - of_int f
      in if frac < 1 / 2 then f
         else if 1 / 2 < frac then f + 1
         else if even f then f else f + 1)"

record opt_row =
  opt_pickup_community_area :: int
  opt_hour :: int
  opt_demand :: real
  assigned_taxis :: int
  served_trips :: real
  unmet_trips :: real

text \<open>
  The solution table that the loop of lines 49 to 63 builds from the values of the solve
  of line 42. Whether the script gets as far as the loop is \<open>optimize_script\<close> below.
\<close>

definition optimize_rows :: "solver \<Rightarrow> demand_table \<Rightarrow> opt_row list" where
  "optimize_rows solve demand_df =
     (let areas = A_of demand_df; hours = H_of demand_df; dem = d_of demand_df;
          r = TRIPS_PER_TAXI_PER_HOUR;
          out = solve (optimize_model demand_df)
      in map (\<lambda>(a, h).
            (let taxis = py_round (case x_value out (a, h) of None \<Rightarrow> 0 | Some v \<Rightarrow> v);
                 um = max 0 (case u_value out (a, h) of None \<Rightarrow> 0 | Some v \<Rightarrow> v);
                 dm = (case dem (a, h) of None \<Rightarrow> 0 | Some v \<Rightarrow> v);
                 sv = min dm (r * of_int taxis)
             in \<lparr>opt_pickup_community_area = a, opt_hour = h, opt_demand = dm,
                 assigned_taxis = taxis, served_trips = sv, unmet_trips = um\<rparr>))
          (List.product areas hours))"



section \<open>load_demand\<close>

















section \<open>What the model means, and solvers for tests\<close>

text \<open>
  An assignment of values to the variables satisfies the model when it respects the
  bounds and categories of the variables and every constraint.
\<close>

definition feasible :: "lp_problem \<Rightarrow> (key \<Rightarrow> real) \<Rightarrow> (key \<Rightarrow> real) \<Rightarrow> bool" where
  "feasible p xs us \<longleftrightarrow>
     (\<forall>k \<in> set (x_vars p). 0 \<le> xs k \<and> (x_cat p = LpInteger \<longrightarrow> xs k \<in> \<int>)) \<and>
     (\<forall>k \<in> set (u_vars p). 0 \<le> us k) \<and>
     (\<forall>(k, r, dv) \<in> set (cover p). dv \<le> r * xs k + us k) \<and>
     (\<forall>(h, ks, c) \<in> set (fleetcap p). sum_list (map xs ks) \<le> of_int c)"

definition lp_objective :: "lp_problem \<Rightarrow> (key \<Rightarrow> real) \<Rightarrow> real" where
  "lp_objective p us = sum_list (map us (objective p))"

text \<open>The values as the extraction reads them: 0 for a variable without a value.\<close>

definition read_values :: "(key \<Rightarrow> real option) \<Rightarrow> key \<Rightarrow> real" where
  "read_values f k = (case f k of None \<Rightarrow> 0 | Some v \<Rightarrow> v)"

text \<open>
  Exact solving: the values reported satisfy the model, and no assignment that satisfies
  the model has a smaller objective.
\<close>

definition optimal_solution :: "lp_problem \<Rightarrow> solver_out \<Rightarrow> bool" where
  "optimal_solution p out \<longleftrightarrow>
     feasible p (read_values (x_value out)) (read_values (u_value out)) \<and>
     (\<forall>xs us. feasible p xs us \<longrightarrow>
        lp_objective p (read_values (u_value out)) \<le> lp_objective p us)"

text \<open>A solver that reports no value at all.\<close>

definition no_value_solver :: solver where
  "no_value_solver p =
     \<lparr>sol_status = Not_Solved, x_value = (\<lambda>k. None), u_value = (\<lambda>k. None), elapsed = 0\<rparr>"

text \<open>
  A solver for models with a single zone: in every hour all of the capacity goes to the
  one zone, and the slack is what the cover constraint still asks for.
\<close>

definition single_zone_solver :: solver where
  "single_zone_solver p =
     (let cap = (\<lambda>h. case map_of (map (\<lambda>(h, ks, c). (h, c)) (fleetcap p)) h of
                       None \<Rightarrow> 0 | Some c \<Rightarrow> real_of_int c);
          asked = map_of (map (\<lambda>(k, r, dv). (k, (r, dv))) (cover p))
      in \<lparr>sol_status = Optimal,
          x_value = (\<lambda>(a, h). Some (cap h)),
          u_value = (\<lambda>(a, h). case asked (a, h) of
                                 None \<Rightarrow> Some 0
                               | Some (r, dv) \<Rightarrow> Some (max 0 (dv - r * cap h))),
          elapsed = 0\<rparr>)"

text \<open>
  The model and the rows that \<open>solve_allocation\<close> produces when no lookup fails, in closed
  form (see \<open>build_model_covers\<close> and \<open>solve_allocation_covers\<close> below).
\<close>

definition model_of :: "demand_table \<Rightarrow> int \<Rightarrow> real \<Rightarrow> bool \<Rightarrow> (int \<rightharpoonup> int) option \<Rightarrow> lp_problem" where
  "model_of df F r int_vars hour_caps =
     \<lparr>x_cat = (if int_vars then LpInteger else LpContinuous),
      x_vars = List.product (A_of df) (H_of df), u_vars = List.product (A_of df) (H_of df),
      objective = List.product (A_of df) (H_of df),
      cover = map (\<lambda>k. (k, r, the (d_of df k))) (List.product (A_of df) (H_of df)),
      fleetcap = map (\<lambda>h. (h, map (\<lambda>a. (a, h)) (A_of df), eff_cap F hour_caps h)) (H_of df)\<rparr>"

definition row_of :: "(key \<rightharpoonup> real) \<Rightarrow> real \<Rightarrow> solver_out \<Rightarrow> key \<Rightarrow> alloc_row" where
  "row_of d r out k =
     \<lparr>pickup_community_area = fst k, hour = snd k, demand = the (d k),
      x_taxis = read_values (x_value out) k,
      served = min (the (d k)) (r * read_values (x_value out) k),
      unmet = read_values (u_value out) k\<rparr>"

text \<open>A solver that reports the same two values for every variable.\<close>

definition fixed_solver :: "real \<Rightarrow> real \<Rightarrow> solver" where
  "fixed_solver xv uv p =
     \<lparr>sol_status = Optimal, x_value = (\<lambda>k. Some xv), u_value = (\<lambda>k. Some uv), elapsed = 1\<rparr>"

text \<open>
  The summary that \<open>solve_allocation\<close> returns for the rate and fleet size \<open>(r, F)\<close> when no
  lookup fails, in closed form.
\<close>

definition summary_for :: "solver \<Rightarrow> demand_table \<Rightarrow> bool \<Rightarrow> (int \<rightharpoonup> int) option \<Rightarrow> real \<times> int \<Rightarrow> summary" where
  "summary_for solve df int_vars hour_caps rF =
     (let r = fst rF; F = snd rF; out = solve (model_of df F r int_vars hour_caps)
      in make_summary out (map (row_of (d_of df) r out) (List.product (A_of df) (H_of df)))
           F r int_vars)"

text \<open>The row of the marginal table for the hour \<open>h\<close> when no lookup fails, in closed form.\<close>

definition mv_row_for :: "solver \<Rightarrow> demand_table \<Rightarrow> int \<Rightarrow> real \<Rightarrow> int \<Rightarrow> bool \<Rightarrow> real \<Rightarrow> int \<Rightarrow> mv_row" where
  "mv_row_for solve df F r delta int_vars base_unmet h =
     \<lparr>mv_hour = h, deltaF_at_hour = delta,
      unmet_reduction = base_unmet -
        objective_unmet (summary_for solve df int_vars (Some (bumped F delta h)) (r, F))\<rparr>"

section \<open>Properties of solve_allocation\<close>

lemma cover_loop_Inr:
  "list_all (\<lambda>k. d k \<noteq> None) ks \<Longrightarrow> cover_loop d r ks = Inr (map (\<lambda>k. (k, r, the (d k))) ks)"
  by (induction d r ks rule: cover_loop.induct) auto

lemma cover_loop_Inl:
  "\<not> list_all (\<lambda>k. d k \<noteq> None) ks \<Longrightarrow>
   \<exists>a h. cover_loop d r ks = Inl (KeyError_pair a h) \<and> (a, h) \<in> set ks \<and> d (a, h) = None"
  by (induction d r ks rule: cover_loop.induct) (auto split: option.splits sum.splits)

lemma fleetcap_loop_Inr:
  "list_all (\<lambda>h. caps h \<noteq> None) hs \<Longrightarrow>
   fleetcap_loop caps A hs = Inr (map (\<lambda>h. (h, map (\<lambda>a. (a, h)) A, the (caps h))) hs)"
  by (induction caps A hs rule: fleetcap_loop.induct) auto

lemma hour_caps_of_apply:
  "hour_caps_of H F hc h = (if h \<in> set H then Some (eff_cap F hc h) else None)"
  by (cases hc) (auto simp: hour_caps_of_def eff_cap_def map_of_map_restrict restrict_map_def)

lemma extract_loop_Inr:
  "list_all (\<lambda>k. d k \<noteq> None) ks \<Longrightarrow> extract_loop d r out ks = Inr (map (row_of d r out) ks)"
  by (induction d r out ks rule: extract_loop.induct) (auto simp: Let_def row_of_def read_values_def)

lemma build_model_covers: "covers df \<Longrightarrow> build_model df F r iv hc = Inr (model_of df F r iv hc)"
  unfolding build_model_def covers_def Let_def model_of_def
  by (simp add: cover_loop_Inr fleetcap_loop_Inr list_all_iff hour_caps_of_apply)

lemma build_model_not_covers:
  "\<not> covers df \<Longrightarrow>
   \<exists>a h. build_model df F r iv hc = Inl (KeyError_pair a h) \<and> a \<in> set (A_of df) \<and>
         h \<in> set (H_of df) \<and> d_of df (a, h) = None"
  unfolding build_model_def covers_def Let_def
  using cover_loop_Inl[of "d_of df" "List.product (A_of df) (H_of df)" r]
  by auto

lemma build_model_Inr: "build_model df F r iv hc = Inr p \<Longrightarrow> covers df \<and> p = model_of df F r iv hc"
  using build_model_covers[of df F r iv hc] build_model_not_covers[of df F r iv hc]
  by (cases "covers df") auto

lemma solve_allocation_covers:
  "covers df \<Longrightarrow>
   solve_allocation solve df F r iv hc =
     ([model_of df F r iv hc],
      Inr \<lparr>allocations = map (row_of (d_of df) r (solve (model_of df F r iv hc)))
                             (List.product (A_of df) (H_of df)),
           summary_of = make_summary (solve (model_of df F r iv hc))
              (map (row_of (d_of df) r (solve (model_of df F r iv hc)))
                             (List.product (A_of df) (H_of df))) F r iv\<rparr>)"
  by (simp add: solve_allocation_def build_model_covers Let_def extract_loop_Inr)
     (simp add: covers_def extract_loop_Inr)

lemma solve_allocation_not_covers:
  "\<not> covers df \<Longrightarrow>
   \<exists>a h. solve_allocation solve df F r iv hc = ([], Inl (KeyError_pair a h)) \<and> a \<in> set (A_of df) \<and>
         h \<in> set (H_of df) \<and> d_of df (a, h) = None"
  using build_model_not_covers[of df F r iv hc] by (auto simp: solve_allocation_def)

lemma solve_allocation_Inr:
  assumes "solve_allocation solve df F r iv hc = (lg, Inr res)"
  shows "covers df"
  using assms solve_allocation_not_covers[of df solve F r iv hc] by (cases "covers df") auto

lemma covers_Nil: "covers []"
  by (simp add: covers_def A_of_def H_of_def)

text \<open>The definitions that the evaluation of a concrete call unfolds.\<close>

lemmas eval_defs = solve_allocation_def build_model_def A_of_def H_of_def d_of_def hour_caps_of_def
  make_summary_def no_value_solver_def fixed_solver_def covers_def optimize_model_def optimize_rows_def
  TRIPS_PER_TAXI_PER_HOUR_def FLEET_SIZE_def read_values_def Let_def

lemma row_keys: "map (\<lambda>row. (pickup_community_area row, hour row)) (map (row_of d r out) ks) = ks"
  by (induction ks) (auto simp: row_of_def)

lemma optimize_rows_keys:
  "map (\<lambda>row. (opt_pickup_community_area row, opt_hour row)) (optimize_rows solve df) =
     List.product (A_of df) (H_of df)"
  unfolding optimize_rows_def Let_def
  by (induction "List.product (A_of df) (H_of df)") (auto simp: case_prod_beta comp_def)

subsection \<open>The served column\<close>



subsection \<open>Variables without a value\<close>

text \<open>
  Once the model is built, the extraction of \<open>solve_allocation\<close> cannot fail, whatever the
  solver reports: the call returns a result with a row for every pair, and a row whose
  assignment variable (its slack variable) has no value has \<open>x_taxis = 0\<close> (\<open>unmet = 0\<close>).
\<close>

lemma solve_allocation_unset_values:
  assumes "build_model df F r iv hc = Inr p"
  shows "\<exists>res. solve_allocation solve df F r iv hc = ([p], Inr res) \<and>
            map (\<lambda>row. (pickup_community_area row, hour row)) (allocations res) =
              List.product (A_of df) (H_of df) \<and>
            (\<forall>row \<in> set (allocations res).
               (x_value (solve p) (pickup_community_area row, hour row) = None \<longrightarrow> x_taxis row = 0) \<and>
               (u_value (solve p) (pickup_community_area row, hour row) = None \<longrightarrow> unmet row = 0))"
proof -
  have cov: "covers df" and p: "p = model_of df F r iv hc"
    using build_model_Inr [OF assms] by auto
  let ?ks = "List.product (A_of df) (H_of df)"
  let ?rows = "map (row_of (d_of df) r (solve p)) ?ks"
  have sa: "solve_allocation solve df F r iv hc =
      ([p], Inr \<lparr>allocations = ?rows, summary_of = make_summary (solve p) ?rows F r iv\<rparr>)"
    using solve_allocation_covers [OF cov, of solve F r iv hc] by (simp add: p)
  have rows: "\<forall>row \<in> set ?rows.
               (x_value (solve p) (pickup_community_area row, hour row) = None \<longrightarrow> x_taxis row = 0) \<and>
               (u_value (solve p) (pickup_community_area row, hour row) = None \<longrightarrow> unmet row = 0)"
    by (auto simp: row_of_def read_values_def)
  show ?thesis
    using sa rows row_keys [of "d_of df" r "solve p" ?ks] by simp
qed


subsection \<open>Per-hour capacity overrides\<close>




subsection \<open>Pairs without a row\<close>

text \<open>
  Claim C2, at a frame that lacks the pairs \<open>(1, 1)\<close> and \<open>(2, 0)\<close> of its product:
  \<open>solve_allocation\<close> raises \<^verbatim>\<open>KeyError\<close> for \<open>(1, 1)\<close> before any model reaches the solver,
  where the script \<^verbatim>\<open>optimize.py\<close> puts demand 0 for both pairs into its cover constraints.
\<close>

theorem missing_pair_raises:
  "solve_allocation solve [(1, 0, 10), (2, 1, 5)] 10 2 True None = ([], Inl (KeyError_pair 1 1)) \<and>
   cover (optimize_model [(1, 0, 10), (2, 1, 5)]) =
     [((1, 0), 2, 10), ((1, 1), 2, 0), ((2, 0), 2, 0), ((2, 1), 2, 5)]"
  by (simp add: eval_defs)

subsection \<open>No validation of the input\<close>

text \<open>
  Claim C1 as stated fails: on the empty frame, with a negative rate and with a negative
  fleet size the call raises nothing, submits one model to the solver and returns a
  result.
\<close>

theorem no_validation_counterexample:
  "solve_allocation no_value_solver [] 10 2 True None =
     ([\<lparr>x_cat = LpInteger, x_vars = [], u_vars = [], objective = [], cover = [], fleetcap = []\<rparr>],
      Inr \<lparr>allocations = [],
           summary_of = \<lparr>status = Not_Solved, runtime_sec = 0, objective_unmet = 0, demand_total = 0,
             served_total = 0, served_pct = 0, fleet_F = 10, rate_r = 2, int_vars_flag = True\<rparr>\<rparr>) \<and>
   solve_allocation no_value_solver [(1, 0, 10)] 10 (- 1) True None =
     ([\<lparr>x_cat = LpInteger, x_vars = [(1, 0)], u_vars = [(1, 0)], objective = [(1, 0)],
        cover = [((1, 0), - 1, 10)], fleetcap = [(0, [(1, 0)], 10)]\<rparr>],
      Inr \<lparr>allocations =
            [\<lparr>pickup_community_area = 1, hour = 0, demand = 10, x_taxis = 0, served = 0, unmet = 0\<rparr>],
           summary_of = \<lparr>status = Not_Solved, runtime_sec = 0, objective_unmet = 0, demand_total = 10,
             served_total = 0, served_pct = 0, fleet_F = 10, rate_r = - 1, int_vars_flag = True\<rparr>\<rparr>) \<and>
   solve_allocation no_value_solver [(1, 0, 10)] (- 5) 2 True None =
     ([\<lparr>x_cat = LpInteger, x_vars = [(1, 0)], u_vars = [(1, 0)], objective = [(1, 0)],
        cover = [((1, 0), 2, 10)], fleetcap = [(0, [(1, 0)], - 5)]\<rparr>],
      Inr \<lparr>allocations =
            [\<lparr>pickup_community_area = 1, hour = 0, demand = 10, x_taxis = 0, served = 0, unmet = 0\<rparr>],
           summary_of = \<lparr>status = Not_Solved, runtime_sec = 0, objective_unmet = 0, demand_total = 10,
             served_total = 0, served_pct = 0, fleet_F = - 5, rate_r = 2, int_vars_flag = True\<rparr>\<rparr>)"
  by (simp add: eval_defs)

text \<open>
  Claim C1, amended. \<open>solve_allocation\<close> does not validate its input. For every frame of
  numeric demands that has a row for each pair of its product (the empty frame is one),
  every fleet size, rate, flag and override mapping, the model is built and submitted to
  the solver exactly once, and a result with the solver's status is returned. On the
  empty frame the allocation table is empty and all totals are 0.
\<close>

theorem no_validation:
  "(covers df \<longrightarrow>
      (\<exists>p res. build_model df F r iv hc = Inr p \<and>
         solve_allocation solve df F r iv hc = ([p], Inr res) \<and>
         status (summary_of res) = sol_status (solve p) \<and>
         fleet_F (summary_of res) = F \<and> rate_r (summary_of res) = r)) \<and>
   covers [] \<and>
   solve_allocation solve [] F r iv hc =
     ([\<lparr>x_cat = (if iv then LpInteger else LpContinuous), x_vars = [], u_vars = [], objective = [],
        cover = [], fleetcap = []\<rparr>],
      Inr \<lparr>allocations = [],
           summary_of = \<lparr>status =
               sol_status (solve \<lparr>x_cat = (if iv then LpInteger else LpContinuous), x_vars = [],
                 u_vars = [], objective = [], cover = [], fleetcap = []\<rparr>),
             runtime_sec =
               elapsed (solve \<lparr>x_cat = (if iv then LpInteger else LpContinuous), x_vars = [],
                 u_vars = [], objective = [], cover = [], fleetcap = []\<rparr>),
             objective_unmet = 0, demand_total = 0, served_total = 0, served_pct = 0,
             fleet_F = F, rate_r = r, int_vars_flag = iv\<rparr>\<rparr>)"
proof (intro conjI impI)
  assume cov: "covers df"
  show "\<exists>p res. build_model df F r iv hc = Inr p \<and>
         solve_allocation solve df F r iv hc = ([p], Inr res) \<and>
         status (summary_of res) = sol_status (solve p) \<and>
         fleet_F (summary_of res) = F \<and> rate_r (summary_of res) = r"
    using build_model_covers [OF cov, of F r iv hc] solve_allocation_covers [OF cov, of solve F r iv hc]
    by (simp add: make_summary_def Let_def)
next
  show "covers []"
    by (rule covers_Nil)
next
  have e: "model_of [] F r iv hc =
      \<lparr>x_cat = (if iv then LpInteger else LpContinuous), x_vars = [], u_vars = [], objective = [],
        cover = [], fleetcap = []\<rparr>"
    by (simp add: model_of_def A_of_def H_of_def)
  show "solve_allocation solve [] F r iv hc =
     ([\<lparr>x_cat = (if iv then LpInteger else LpContinuous), x_vars = [], u_vars = [], objective = [],
        cover = [], fleetcap = []\<rparr>],
      Inr \<lparr>allocations = [],
           summary_of = \<lparr>status =
               sol_status (solve \<lparr>x_cat = (if iv then LpInteger else LpContinuous), x_vars = [],
                 u_vars = [], objective = [], cover = [], fleetcap = []\<rparr>),
             runtime_sec =
               elapsed (solve \<lparr>x_cat = (if iv then LpInteger else LpContinuous), x_vars = [],
                 u_vars = [], objective = [], cover = [], fleetcap = []\<rparr>),
             objective_unmet = 0, demand_total = 0, served_total = 0, served_pct = 0,
             fleet_F = F, rate_r = r, int_vars_flag = iv\<rparr>\<rparr>)"
    using solve_allocation_covers [OF covers_Nil, of solve F r iv hc]
    by (simp add: e make_summary_def A_of_def H_of_def)
qed

theorem no_validation_witness:
  "covers [(1, 0, 10)] \<and>
   build_model [(1, 0, 10)] (- 5) (- 1) True None =
     Inr \<lparr>x_cat = LpInteger, x_vars = [(1, 0)], u_vars = [(1, 0)], objective = [(1, 0)],
          cover = [((1, 0), - 1, 10)], fleetcap = [(0, [(1, 0)], - 5)]\<rparr> \<and>
   (\<exists>res. solve_allocation (fixed_solver 3 1) [(1, 0, 10)] (- 5) (- 1) True None =
      ([\<lparr>x_cat = LpInteger, x_vars = [(1, 0)], u_vars = [(1, 0)], objective = [(1, 0)],
          cover = [((1, 0), - 1, 10)], fleetcap = [(0, [(1, 0)], - 5)]\<rparr>], Inr res) \<and>
      status (summary_of res) = Optimal \<and> fleet_F (summary_of res) = - 5 \<and>
      rate_r (summary_of res) = - 1)"
proof -
  have c: "covers [(1, 0, 10)]"
    by (simp add: eval_defs)
  have b: "build_model [(1, 0, 10)] (- 5) (- 1) True None =
     Inr \<lparr>x_cat = LpInteger, x_vars = [(1, 0)], u_vars = [(1, 0)], objective = [(1, 0)],
          cover = [((1, 0), - 1, 10)], fleetcap = [(0, [(1, 0)], - 5)]\<rparr>"
    by (simp add: eval_defs)
  have s: "\<And>p. sol_status (fixed_solver 3 1 p) = Optimal"
    by (simp add: fixed_solver_def)
  show ?thesis
    using c b s no_validation [of "[(1, 0, 10)]" "- 5" "- 1" True None "fixed_solver 3 1"]
    by auto
qed

section \<open>Properties of the sweeps\<close>

lemma solve_allocation_summary:
  "covers df \<Longrightarrow>
   \<exists>res. solve_allocation solve df F r iv hc = ([model_of df F r iv hc], Inr res) \<and>
         summary_of res = summary_for solve df iv hc (r, F)"
  by (simp add: solve_allocation_covers summary_for_def Let_def)

lemma summary_for_key [simp]:
  "rate_r (summary_for solve df iv hc rF) = fst rF" "fleet_F (summary_for solve df iv hc rF) = snd rF"
  by (simp_all add: summary_for_def make_summary_def Let_def)

lemma sensitivity_loop_covers:
  "covers df \<Longrightarrow>
   sensitivity_loop solve df iv ps =
     (map (\<lambda>(r, F). model_of df F r iv None) ps, Inr (map (summary_for solve df iv None) ps))"
proof (induction ps)
  case Nil
  then show ?case by simp
next
  case (Cons p ps)
  obtain r F where p: "p = (r, F)" by (cases p)
  from solve_allocation_summary [OF Cons.prems, of solve F r iv None]
  obtain res where "solve_allocation solve df F r iv None = ([model_of df F r iv None], Inr res)"
    and "summary_of res = summary_for solve df iv None (r, F)" by blast
  with Cons show ?case by (simp add: p)
qed

lemma map_insort_key: "map f (insort_key f x xs) = insort (f x) (map f xs)"
  by (induction xs) auto

lemma map_sort_key: "map f (sort_key f xs) = sort (map f xs)"
  by (induction xs) (auto simp: map_insort_key)

lemma map_key_summary_for:
  "map (\<lambda>s. (rate_r s, fleet_F s)) (map (summary_for solve df iv hc) ps) = ps"
  by (induction ps) auto

subsection \<open>The sensitivity grid\<close>

text \<open>
  For a frame that has a row for each pair of its product and two non-empty grids,
  \<open>run_sensitivity\<close> returns normally; it submits one model per pair of
  \<open>List.product r_grid F_grid\<close> (rate in the outer loop, fleet size in the inner one), in
  that order and each the model of \<open>solve_allocation\<close> for the pair, so
  \<open>length F_grid * length r_grid\<close> solves in all; it returns as many records, each the
  summary of the solve for its own \<open>(r, F)\<close>, and the \<open>(r, F)\<close> keys of the records are the
  pairs of the grid in ascending order.
\<close>

lemma run_sensitivity_grid:
  assumes "covers df" and "F_grid \<noteq> []" and "r_grid \<noteq> []"
  shows "\<exists>lg recs. run_sensitivity solve df F_grid r_grid iv = (lg, Inr recs) \<and>
           map Inr lg = map (\<lambda>(r, F). build_model df F r iv None) (List.product r_grid F_grid) \<and>
           length lg = length F_grid * length r_grid \<and>
           length recs = length F_grid * length r_grid \<and>
           map (\<lambda>s. (rate_r s, fleet_F s)) recs = sort (List.product r_grid F_grid) \<and>
           sorted (map (\<lambda>s. (rate_r s, fleet_F s)) recs) \<and>
           (\<forall>s \<in> set recs. \<exists>p res.
              solve_allocation solve df (fleet_F s) (rate_r s) iv None = ([p], Inr res) \<and>
              summary_of res = s)"
proof -
  let ?ps = "List.product r_grid F_grid"
  let ?lg = "map (\<lambda>(r, F). model_of df F r iv None) ?ps"
  let ?rows = "map (summary_for solve df iv None) ?ps"
  let ?recs = "sort_key (\<lambda>s. (rate_r s, fleet_F s)) ?rows"
  have ne: "?rows \<noteq> []"
    using assms(2,3) by (cases r_grid; cases F_grid) auto
  have run: "run_sensitivity solve df F_grid r_grid iv = (?lg, Inr ?recs)"
    using ne by (simp add: run_sensitivity_def sensitivity_loop_covers [OF assms(1)])
  have lg: "map Inr ?lg = map (\<lambda>(r, F). build_model df F r iv None) ?ps"
    by (simp add: build_model_covers [OF assms(1)] case_prod_beta)
  have len: "length ?lg = length F_grid * length r_grid" "length ?recs = length F_grid * length r_grid"
    by (simp_all add: mult.commute)
  have keys: "map (\<lambda>s. (rate_r s, fleet_F s)) ?recs = sort ?ps"
    by (simp only: map_sort_key map_key_summary_for)
  have srt: "sorted (map (\<lambda>s. (rate_r s, fleet_F s)) ?recs)"
    by (rule sorted_sort_key)
  have each: "\<forall>s \<in> set ?recs. \<exists>p res.
              solve_allocation solve df (fleet_F s) (rate_r s) iv None = ([p], Inr res) \<and>
              summary_of res = s"
  proof
    fix s assume "s \<in> set ?recs"
    then obtain rF where s: "s = summary_for solve df iv None rF" by auto
    from solve_allocation_summary [OF assms(1), of solve "snd rF" "fst rF" iv None]
    show "\<exists>p res. solve_allocation solve df (fleet_F s) (rate_r s) iv None = ([p], Inr res) \<and>
              summary_of res = s"
      by (auto simp: s)
  qed
  show ?thesis
    using run lg len keys srt each by blast
qed

lemma run_sensitivity_grid_example:
  "covers [(1, 0, 18)] \<and>
   (\<exists>lg recs. run_sensitivity single_zone_solver [(1, 0, 18)] [10, 5] [2, 1] True = (lg, Inr recs) \<and>
      length lg = 4 \<and> length recs = 4 \<and>
      map (\<lambda>s. (rate_r s, fleet_F s)) recs = [(1, 5), (1, 10), (2, 5), (2, 10)] \<and>
      map objective_unmet recs = [13, 8, 8, 0])"
proof -
  have c: "covers [(1, 0, 18)]"
    by (simp add: eval_defs)
  have e: "snd (run_sensitivity single_zone_solver [(1, 0, 18)] [10, 5] [2, 1] True) =
    Inr [\<lparr>status = Optimal, runtime_sec = 0, objective_unmet = 13,
          demand_total = 18, served_total = 5, served_pct = 5 / 18,
          fleet_F = 5, rate_r = 1, int_vars_flag = True\<rparr>,
       \<lparr>status = Optimal, runtime_sec = 0, objective_unmet = 8,
          demand_total = 18, served_total = 10, served_pct = 5 / 9,
          fleet_F = 10, rate_r = 1, int_vars_flag = True\<rparr>,
       \<lparr>status = Optimal, runtime_sec = 0, objective_unmet = 8,
          demand_total = 18, served_total = 10, served_pct = 5 / 9,
          fleet_F = 5, rate_r = 2, int_vars_flag = True\<rparr>,
       \<lparr>status = Optimal, runtime_sec = 0, objective_unmet = 0,
          demand_total = 18, served_total = 18, served_pct = 1,
          fleet_F = 10, rate_r = 2, int_vars_flag = True\<rparr>]"
    by (simp add: run_sensitivity_def eval_defs single_zone_solver_def)
  have "[10, 5] \<noteq> ([] :: int list)" and "[2, 1] \<noteq> ([] :: real list)"
    by simp_all
  from run_sensitivity_grid [OF c this, of single_zone_solver True]
  obtain lg recs where
    run: "run_sensitivity single_zone_solver [(1, 0, 18)] [10, 5] [2, 1] True = (lg, Inr recs)"
    and len: "length lg = length [10, 5 :: int] * length [2, 1 :: real]"
      "length recs = length [10, 5 :: int] * length [2, 1 :: real]"
    and keys: "map (\<lambda>s. (rate_r s, fleet_F s)) recs = sort (List.product [2, 1] [10, 5])"
    by blast
  from run e have recs: "map objective_unmet recs = [13, 8, 8, 0]"
    by simp
  from keys have "map (\<lambda>s. (rate_r s, fleet_F s)) recs = [(1, 5), (1, 10), (2, 5), (2, 10)]"
    by simp
  with c run len recs show ?thesis
    by simp
qed

text \<open>
  Claim C4, at a frame that lacks the pair \<open>(1, 1)\<close> of its product, with the grids
  \<^verbatim>\<open>F_grid = [5, 10]\<close> and \<^verbatim>\<open>r_grid = [1.0]\<close>: the first solve raises \<^verbatim>\<open>KeyError\<close> for \<open>(1, 1)\<close>
  before any model reaches the solver, and the runner returns no record, where the claim
  has one solve and one record for each of the two pairs.
\<close>

theorem run_sensitivity_missing_pair:
  "run_sensitivity solve [(1, 0, 10), (2, 1, 5)] [5, 10] [1] True = ([], Inl (KeyError_pair 1 1))"
  by (simp add: run_sensitivity_def eval_defs)

subsection \<open>An empty grid\<close>

text \<open>
  Claim C7, at an empty \<^verbatim>\<open>F_grid\<close> and at an empty \<^verbatim>\<open>r_grid\<close>: no solve happens, the list of
  rows is empty, and sorting the frame made of it raises \<^verbatim>\<open>KeyError\<close> for the label \<^verbatim>\<open>'r'\<close>;
  the runner does not return an empty result.
\<close>

theorem run_sensitivity_empty_grid:
  "run_sensitivity solve df [] r_grid iv = ([], Inl (KeyError_label ''r'')) \<and>
   run_sensitivity solve df F_grid [] iv = ([], Inl (KeyError_label ''r''))"
proof -
  have "List.product r_grid ([] :: int list) = []"
    by (induction r_grid) auto
  then show ?thesis
    by (simp add: run_sensitivity_def)
qed



lemma eff_cap_marginal:
  "eff_cap F (Some ((map_of (map (\<lambda>hh. (hh, F)) hours))(h \<mapsto> F + delta))) =
   eff_cap F (Some (bumped F delta h))"
proof
  fix hh
  show "eff_cap F (Some ((map_of (map (\<lambda>hh. (hh, F)) hours))(h \<mapsto> F + delta))) hh =
        eff_cap F (Some (bumped F delta h)) hh"
    by (cases "hh \<in> set hours")
       (auto simp: eff_cap_def bumped_def map_of_map_restrict restrict_map_def)
qed

lemma model_of_eff_cap: "eff_cap F hc = eff_cap F hc' \<Longrightarrow> model_of df F r iv hc = model_of df F r iv hc'"
  by (simp add: model_of_def)

lemma model_of_marginal:
  "model_of df F r iv (Some ((map_of (map (\<lambda>hh. (hh, F)) hours))(h \<mapsto> F + delta))) =
   model_of df F r iv (Some (bumped F delta h))"
  by (rule model_of_eff_cap) (rule eff_cap_marginal)

lemma summary_for_marginal:
  "summary_for solve df iv (Some ((map_of (map (\<lambda>hh. (hh, F)) hours))(h \<mapsto> F + delta))) (r, F) =
   summary_for solve df iv (Some (bumped F delta h)) (r, F)"
  by (simp add: summary_for_def model_of_marginal)

lemma marginal_loop_covers:
  "covers df \<Longrightarrow>
   marginal_loop solve df F r delta iv bu hours hs =
     (map (\<lambda>h. model_of df F r iv (Some (bumped F delta h))) hs,
      Inr (map (mv_row_for solve df F r delta iv bu) hs))"
proof (induction hs)
  case Nil
  then show ?case by simp
next
  case (Cons h hs)
  let ?caps = "(map_of (map (\<lambda>hh. (hh, F)) hours))(h \<mapsto> F + delta)"
  from solve_allocation_summary [OF Cons.prems, of solve F r iv "Some ?caps"]
  obtain res where "solve_allocation solve df F r iv (Some ?caps) =
      ([model_of df F r iv (Some ?caps)], Inr res)"
    and "summary_of res = summary_for solve df iv (Some ?caps) (r, F)" by blast
  with Cons show ?case
    by (simp add: Let_def model_of_marginal summary_for_marginal mv_row_for_def)
qed

lemma H_of_nonempty: "df \<noteq> [] \<Longrightarrow> H_of df \<noteq> []"
  by (cases df) (auto simp: H_of_def dest!: arg_cong [where f = set])

lemma H_of_sorted: "sorted (H_of df)" "distinct (H_of df)"
  by (simp_all add: H_of_def)

lemma map_mv_hour: "map mv_hour (map (mv_row_for solve df F r delta iv bu) hs) = hs"
  by (induction hs) (auto simp: mv_row_for_def)

subsection \<open>The marginal value per hour\<close>

text \<open>
  For a non-empty frame that has a row for each pair of its product,
  \<open>marginal_value_per_hour\<close> returns normally. It first solves the baseline (capacity \<open>F\<close>
  in every hour) and then, for each hour \<open>h\<close> of the frame in ascending order, the model
  whose capacity is \<open>F + delta\<close> at \<open>h\<close> and \<open>F\<close> at every other hour; the row for \<open>h\<close> holds
  \<open>delta\<close> and the baseline's unmet total minus the unmet total of that solve. There is one
  row per hour, and the rows are in ascending order of the hour.
\<close>

lemma marginal_value_rows:
  assumes "covers df" and "df \<noteq> []"
  shows "\<exists>pb base lg rows.
           solve_allocation solve df F r iv None = ([pb], Inr base) \<and>
           marginal_value_per_hour solve df F r delta iv = (pb # lg, Inr rows) \<and>
           map Inr lg = map (\<lambda>h. build_model df F r iv (Some (bumped F delta h))) (H_of df) \<and>
           list_all2
             (\<lambda>h row. \<exists>p res.
                solve_allocation solve df F r iv (Some (bumped F delta h)) = ([p], Inr res) \<and>
                fleetcap p =
                  map (\<lambda>hh. (hh, map (\<lambda>a. (a, hh)) (A_of df), if hh = h then F + delta else F))
                    (H_of df) \<and>
                row = \<lparr>mv_hour = h, deltaF_at_hour = delta,
                       unmet_reduction =
                         objective_unmet (summary_of base) - objective_unmet (summary_of res)\<rparr>)
             (H_of df) rows \<and>
           map mv_hour rows = H_of df \<and> sorted (map mv_hour rows) \<and> distinct (map mv_hour rows)"
proof -
  let ?H = "H_of df"
  from solve_allocation_summary [OF assms(1), of solve F r iv None]
  obtain base where base: "solve_allocation solve df F r iv None = ([model_of df F r iv None], Inr base)"
    by blast
  let ?bu = "objective_unmet (summary_of base)"
  let ?lg = "map (\<lambda>h. model_of df F r iv (Some (bumped F delta h))) ?H"
  let ?rows = "map (mv_row_for solve df F r delta iv ?bu) ?H"
  have hours: "map mv_hour ?rows = ?H"
    by (rule map_mv_hour)
  have ne: "?rows \<noteq> []"
    using H_of_nonempty [OF assms(2)] by simp
  have srt: "sort_key mv_hour ?rows = ?rows"
    by (rule sort_key_id_if_sorted) (simp only: hours H_of_sorted)
  have run: "marginal_value_per_hour solve df F r delta iv = (model_of df F r iv None # ?lg, Inr ?rows)"
    using ne srt by (simp add: marginal_value_per_hour_def base Let_def marginal_loop_covers [OF assms(1)])
  have lg: "map Inr ?lg = map (\<lambda>h. build_model df F r iv (Some (bumped F delta h))) ?H"
    by (simp add: build_model_covers [OF assms(1)])
  have each: "list_all2
             (\<lambda>h row. \<exists>p res.
                solve_allocation solve df F r iv (Some (bumped F delta h)) = ([p], Inr res) \<and>
                fleetcap p =
                  map (\<lambda>hh. (hh, map (\<lambda>a. (a, hh)) (A_of df), if hh = h then F + delta else F)) ?H \<and>
                row = \<lparr>mv_hour = h, deltaF_at_hour = delta,
                       unmet_reduction = ?bu - objective_unmet (summary_of res)\<rparr>)
             ?H ?rows"
  proof (simp only: list_all2_map2, rule list_all2_same [THEN iffD2], rule ballI)
    fix h assume "h \<in> set ?H"
    from solve_allocation_summary [OF assms(1), of solve F r iv "Some (bumped F delta h)"]
    obtain res where res: "solve_allocation solve df F r iv (Some (bumped F delta h)) =
        ([model_of df F r iv (Some (bumped F delta h))], Inr res)"
      and sm: "summary_of res = summary_for solve df iv (Some (bumped F delta h)) (r, F)" by blast
    have fc: "fleetcap (model_of df F r iv (Some (bumped F delta h))) =
        map (\<lambda>hh. (hh, map (\<lambda>a. (a, hh)) (A_of df), if hh = h then F + delta else F)) ?H"
      by (simp add: model_of_def eff_cap_def bumped_def)
    show "\<exists>p res.
            solve_allocation solve df F r iv (Some (bumped F delta h)) = ([p], Inr res) \<and>
            fleetcap p =
              map (\<lambda>hh. (hh, map (\<lambda>a. (a, hh)) (A_of df), if hh = h then F + delta else F)) ?H \<and>
            mv_row_for solve df F r delta iv ?bu h =
              \<lparr>mv_hour = h, deltaF_at_hour = delta,
               unmet_reduction = ?bu - objective_unmet (summary_of res)\<rparr>"
      using res fc sm by (simp add: mv_row_for_def)
  qed
  have sd: "sorted (map mv_hour ?rows)" "distinct (map mv_hour ?rows)"
    by (simp_all only: hours H_of_sorted)
  show ?thesis
    using base run lg each hours sd by blast
qed

lemma marginal_value_rows_example:
  "covers [(1, 0, 18), (1, 1, 6)] \<and> [(1, 0, 18), (1, 1, 6)] \<noteq> ([] :: demand_table) \<and>
   (\<exists>pb lg rows.
      marginal_value_per_hour single_zone_solver [(1, 0, 18), (1, 1, 6)] 5 2 1 True =
        (pb # lg, Inr rows) \<and>
      fleetcap pb = [(0, [(1, 0)], 5), (1, [(1, 1)], 5)] \<and>
      map fleetcap lg = [[(0, [(1, 0)], 6), (1, [(1, 1)], 5)], [(0, [(1, 0)], 5), (1, [(1, 1)], 6)]] \<and>
      rows = [\<lparr>mv_hour = 0, deltaF_at_hour = 1, unmet_reduction = 2\<rparr>,
              \<lparr>mv_hour = 1, deltaF_at_hour = 1, unmet_reduction = 0\<rparr>])"
proof -
  let ?df = "[(1, 0, 18), (1, 1, 6)] :: demand_table"
  have c: "covers ?df"
    by (simp add: eval_defs)
  have ne: "?df \<noteq> []"
    by simp
  have e: "marginal_value_per_hour single_zone_solver ?df 5 2 1 True =
     ([\<lparr>x_cat = LpInteger, x_vars = [(1, 0), (1, 1)], u_vars = [(1, 0), (1, 1)],
        objective = [(1, 0), (1, 1)], cover = [((1, 0), 2, 18), ((1, 1), 2, 6)],
        fleetcap = [(0, [(1, 0)], 5), (1, [(1, 1)], 5)]\<rparr>,
       \<lparr>x_cat = LpInteger, x_vars = [(1, 0), (1, 1)], u_vars = [(1, 0), (1, 1)],
        objective = [(1, 0), (1, 1)], cover = [((1, 0), 2, 18), ((1, 1), 2, 6)],
        fleetcap = [(0, [(1, 0)], 6), (1, [(1, 1)], 5)]\<rparr>,
       \<lparr>x_cat = LpInteger, x_vars = [(1, 0), (1, 1)], u_vars = [(1, 0), (1, 1)],
        objective = [(1, 0), (1, 1)], cover = [((1, 0), 2, 18), ((1, 1), 2, 6)],
        fleetcap = [(0, [(1, 0)], 5), (1, [(1, 1)], 6)]\<rparr>],
      Inr [\<lparr>mv_hour = 0, deltaF_at_hour = 1, unmet_reduction = 2\<rparr>,
           \<lparr>mv_hour = 1, deltaF_at_hour = 1, unmet_reduction = 0\<rparr>])"
    by (simp add: marginal_value_per_hour_def eval_defs single_zone_solver_def)
  from marginal_value_rows [OF c ne, of single_zone_solver 5 2 True 1]
  obtain pb lg rows where
    "marginal_value_per_hour single_zone_solver ?df 5 2 1 True = (pb # lg, Inr rows)"
    by blast
  with e c ne show ?thesis
    by simp
qed

text \<open>
  Claim C5, at a frame that lacks the pair \<open>(1, 1)\<close> of its product and at the empty frame.
  On the first the baseline solve raises \<^verbatim>\<open>KeyError\<close> for \<open>(1, 1)\<close> before any model reaches
  the solver. On the second the baseline is solved, there is no hour and so no row, and
  sorting the frame made of the empty list of rows raises \<^verbatim>\<open>KeyError\<close> for the label
  \<^verbatim>\<open>'hour'\<close>, where the claim has a result with no row.
\<close>

theorem marginal_value_failures:
  "marginal_value_per_hour solve [(1, 0, 10), (2, 1, 5)] 5 2 1 True = ([], Inl (KeyError_pair 1 1)) \<and>
   marginal_value_per_hour solve [] 5 2 1 True =
     ([\<lparr>x_cat = LpInteger, x_vars = [], u_vars = [], objective = [], cover = [], fleetcap = []\<rparr>],
      Inl (KeyError_label ''hour''))"
  by (simp add: marginal_value_per_hour_def eval_defs)

section \<open>Monotonicity under exact solving\<close>

lemma objective_unmet_summary_for:
  "objective_unmet (summary_for solve df iv hc (r, F)) =
     lp_objective (model_of df F r iv hc) (read_values (u_value (solve (model_of df F r iv hc))))"
proof -
  have "objective (model_of df F r iv hc) = List.product (A_of df) (H_of df)"
    by (simp add: model_of_def)
  then show ?thesis
    by (simp add: summary_for_def make_summary_def Let_def lp_objective_def comp_def row_of_def)
qed

lemma lp_objective_model_of:
  "lp_objective (model_of df F r iv hc) us = lp_objective (model_of df F' r' iv' hc') us"
  by (simp add: lp_objective_def model_of_def)

lemma feasible_mono:
  assumes feas: "feasible (model_of df F r iv hc) xs us"
    and caps: "\<forall>h \<in> set (H_of df). eff_cap F hc h \<le> eff_cap F' hc' h"
    and rate: "r \<le> r'"
  shows "feasible (model_of df F' r' iv hc') xs us"
proof -
  let ?ks = "List.product (A_of df) (H_of df)"
  from feas have xs: "\<forall>k \<in> set ?ks. 0 \<le> xs k \<and> (iv \<longrightarrow> xs k \<in> \<int>)"
    and us: "\<forall>k \<in> set ?ks. 0 \<le> us k"
    and cov: "\<forall>k \<in> set ?ks. the (d_of df k) \<le> r * xs k + us k"
    and cap: "\<forall>h \<in> set (H_of df). sum_list (map xs (map (\<lambda>a. (a, h)) (A_of df))) \<le> of_int (eff_cap F hc h)"
    by (auto simp: feasible_def model_of_def split: if_splits)
  have cov': "\<forall>k \<in> set ?ks. the (d_of df k) \<le> r' * xs k + us k"
  proof
    fix k assume k: "k \<in> set ?ks"
    with xs have "0 \<le> xs k" by blast
    with rate have "r * xs k \<le> r' * xs k" by (rule mult_right_mono)
    with cov k show "the (d_of df k) \<le> r' * xs k + us k" by fastforce
  qed
  have cap': "\<forall>h \<in> set (H_of df). sum_list (map xs (map (\<lambda>a. (a, h)) (A_of df))) \<le> of_int (eff_cap F' hc' h)"
  proof
    fix h assume h: "h \<in> set (H_of df)"
    with caps have "real_of_int (eff_cap F hc h) \<le> of_int (eff_cap F' hc' h)" by simp
    with cap h show "sum_list (map xs (map (\<lambda>a. (a, h)) (A_of df))) \<le> of_int (eff_cap F' hc' h)"
      by fastforce
  qed
  from xs us cov' cap' show ?thesis
    by (auto simp: feasible_def model_of_def)
qed

lemma objective_mono:
  assumes caps: "\<forall>h \<in> set (H_of df). eff_cap F hc h \<le> eff_cap F' hc' h"
    and rate: "r \<le> r'"
    and opt: "optimal_solution (model_of df F r iv hc) (solve (model_of df F r iv hc))"
    and opt': "optimal_solution (model_of df F' r' iv hc') (solve (model_of df F' r' iv hc'))"
  shows "objective_unmet (summary_for solve df iv hc' (r', F')) \<le>
         objective_unmet (summary_for solve df iv hc (r, F))"
proof -
  let ?p = "model_of df F r iv hc" and ?p' = "model_of df F' r' iv hc'"
  let ?xs = "read_values (x_value (solve ?p))" and ?us = "read_values (u_value (solve ?p))"
  from opt have "feasible ?p ?xs ?us"
    by (simp add: optimal_solution_def)
  then have "feasible ?p' ?xs ?us"
    using caps rate by (rule feasible_mono)
  with opt' have "lp_objective ?p' (read_values (u_value (solve ?p'))) \<le> lp_objective ?p' ?us"
    by (simp add: optimal_solution_def)
  also have "lp_objective ?p' ?us = lp_objective ?p ?us"
    by (rule lp_objective_model_of)
  finally show ?thesis
    by (simp only: objective_unmet_summary_for)
qed

lemma solve_allocation_Inr_summary:
  assumes "solve_allocation solve df F r iv hc = (lg, Inr res)"
  shows "covers df" and "lg = [model_of df F r iv hc]"
    and "summary_of res = summary_for solve df iv hc (r, F)"
proof -
  show c: "covers df"
    using assms by (rule solve_allocation_Inr)
  from solve_allocation_summary [OF c, of solve F r iv hc] assms
  show "lg = [model_of df F r iv hc]" and "summary_of res = summary_for solve df iv hc (r, F)"
    by auto
qed

lemma marginal_Inr:
  assumes "marginal_value_per_hour solve df F r delta iv = (lg, Inr rows)"
  shows "covers df"
    and "lg = model_of df F r iv None # map (\<lambda>h. model_of df F r iv (Some (bumped F delta h))) (H_of df)"
    and "set rows = mv_row_for solve df F r delta iv
            (objective_unmet (summary_for solve df iv None (r, F))) ` set (H_of df)"
proof -
  show c: "covers df"
  proof (rule ccontr)
    assume "\<not> covers df"
    from solve_allocation_not_covers [OF this, of solve F r iv None] assms
    show False by (auto simp: marginal_value_per_hour_def)
  qed
  from solve_allocation_summary [OF c, of solve F r iv None]
  obtain base where base: "solve_allocation solve df F r iv None = ([model_of df F r iv None], Inr base)"
    and sm: "summary_of base = summary_for solve df iv None (r, F)" by blast
  from assms show "lg = model_of df F r iv None # map (\<lambda>h. model_of df F r iv (Some (bumped F delta h))) (H_of df)"
    and "set rows = mv_row_for solve df F r delta iv
            (objective_unmet (summary_for solve df iv None (r, F))) ` set (H_of df)"
    by (auto simp: marginal_value_per_hour_def base sm Let_def marginal_loop_covers [OF c]
        split: if_splits)
qed

text \<open>
  Claim C6. When the solver is exact on every model submitted: a larger fleet size at
  the same rate does not increase \<open>objective_unmet\<close>; a larger rate at the same fleet
  size does not increase it; and every row of \<open>marginal_value_per_hour\<close> with a positive
  increment has a non-negative \<open>unmet_reduction\<close>.
\<close>

theorem unmet_monotone:
  "(solve_allocation solve df F r iv hc = (lg, Inr res) \<and>
    solve_allocation solve df F' r iv hc = (lg', Inr res') \<and> F \<le> F' \<and>
    (\<forall>p \<in> set (lg @ lg'). optimal_solution p (solve p))
      \<longrightarrow> objective_unmet (summary_of res') \<le> objective_unmet (summary_of res)) \<and>
   (solve_allocation solve df F r iv hc = (lg, Inr res) \<and>
    solve_allocation solve df F r' iv hc = (lg', Inr res') \<and> r \<le> r' \<and>
    (\<forall>p \<in> set (lg @ lg'). optimal_solution p (solve p))
      \<longrightarrow> objective_unmet (summary_of res') \<le> objective_unmet (summary_of res)) \<and>
   (marginal_value_per_hour solve df F r delta iv = (lgm, Inr rows) \<and> 0 < delta \<and>
    (\<forall>p \<in> set lgm. optimal_solution p (solve p))
      \<longrightarrow> (\<forall>row \<in> set rows. 0 \<le> unmet_reduction row))"
proof (intro conjI impI)
  assume a: "solve_allocation solve df F r iv hc = (lg, Inr res) \<and>
    solve_allocation solve df F' r iv hc = (lg', Inr res') \<and> F \<le> F' \<and>
    (\<forall>p \<in> set (lg @ lg'). optimal_solution p (solve p))"
  then have s: "solve_allocation solve df F r iv hc = (lg, Inr res)"
    and s': "solve_allocation solve df F' r iv hc = (lg', Inr res')" and le: "F \<le> F'"
    and opt: "\<forall>p \<in> set (lg @ lg'). optimal_solution p (solve p)" by blast+
  note f = solve_allocation_Inr_summary [OF s] and f' = solve_allocation_Inr_summary [OF s']
  have caps: "\<forall>h \<in> set (H_of df). eff_cap F hc h \<le> eff_cap F' hc h"
    using le by (auto simp: eff_cap_def split: option.splits)
  have "objective_unmet (summary_for solve df iv hc (r, F')) \<le>
        objective_unmet (summary_for solve df iv hc (r, F))"
    using caps _ _ _
  proof (rule objective_mono)
    show "r \<le> r" by simp
    show "optimal_solution (model_of df F r iv hc) (solve (model_of df F r iv hc))"
      using opt f(2) by simp
    show "optimal_solution (model_of df F' r iv hc) (solve (model_of df F' r iv hc))"
      using opt f'(2) by simp
  qed
  then show "objective_unmet (summary_of res') \<le> objective_unmet (summary_of res)"
    by (simp only: f(3) f'(3))
next
  assume a: "solve_allocation solve df F r iv hc = (lg, Inr res) \<and>
    solve_allocation solve df F r' iv hc = (lg', Inr res') \<and> r \<le> r' \<and>
    (\<forall>p \<in> set (lg @ lg'). optimal_solution p (solve p))"
  then have s: "solve_allocation solve df F r iv hc = (lg, Inr res)"
    and s': "solve_allocation solve df F r' iv hc = (lg', Inr res')" and le: "r \<le> r'"
    and opt: "\<forall>p \<in> set (lg @ lg'). optimal_solution p (solve p)" by blast+
  note f = solve_allocation_Inr_summary [OF s] and f' = solve_allocation_Inr_summary [OF s']
  have "objective_unmet (summary_for solve df iv hc (r', F)) \<le>
        objective_unmet (summary_for solve df iv hc (r, F))"
    using _ le _ _
  proof (rule objective_mono)
    show "\<forall>h \<in> set (H_of df). eff_cap F hc h \<le> eff_cap F hc h" by simp
    show "optimal_solution (model_of df F r iv hc) (solve (model_of df F r iv hc))"
      using opt f(2) by simp
    show "optimal_solution (model_of df F r' iv hc) (solve (model_of df F r' iv hc))"
      using opt f'(2) by simp
  qed
  then show "objective_unmet (summary_of res') \<le> objective_unmet (summary_of res)"
    by (simp only: f(3) f'(3))
next
  assume a: "marginal_value_per_hour solve df F r delta iv = (lgm, Inr rows) \<and> 0 < delta \<and>
    (\<forall>p \<in> set lgm. optimal_solution p (solve p))"
  then have m: "marginal_value_per_hour solve df F r delta iv = (lgm, Inr rows)"
    and pos: "0 < delta" and opt: "\<forall>p \<in> set lgm. optimal_solution p (solve p)" by blast+
  note f = marginal_Inr [OF m]
  show "\<forall>row \<in> set rows. 0 \<le> unmet_reduction row"
  proof
    fix row assume "row \<in> set rows"
    with f(3) obtain h where h: "h \<in> set (H_of df)"
      and row: "row = mv_row_for solve df F r delta iv
                  (objective_unmet (summary_for solve df iv None (r, F))) h" by auto
    have caps: "\<forall>hh \<in> set (H_of df). eff_cap F None hh \<le> eff_cap F (Some (bumped F delta h)) hh"
      using pos by (simp add: eff_cap_def bumped_def)
    have "objective_unmet (summary_for solve df iv (Some (bumped F delta h)) (r, F)) \<le>
          objective_unmet (summary_for solve df iv None (r, F))"
      using caps _ _ _
    proof (rule objective_mono)
      show "r \<le> r" by simp
      show "optimal_solution (model_of df F r iv None) (solve (model_of df F r iv None))"
        using opt f(2) by simp
      show "optimal_solution (model_of df F r iv (Some (bumped F delta h)))
              (solve (model_of df F r iv (Some (bumped F delta h))))"
        using opt f(2) h by simp
    qed
    then show "0 \<le> unmet_reduction row"
      by (simp add: row mv_row_for_def)
  qed
qed


lemma single_cell_optimal:
  assumes "0 \<le> r" and "0 \<le> c"
  shows "optimal_solution
           \<lparr>x_cat = cat, x_vars = [(a, h)], u_vars = [(a, h)], objective = [(a, h)],
            cover = [((a, h), r, dv)], fleetcap = [(h, [(a, h)], c)]\<rparr>
           (single_zone_solver
              \<lparr>x_cat = cat, x_vars = [(a, h)], u_vars = [(a, h)], objective = [(a, h)],
               cover = [((a, h), r, dv)], fleetcap = [(h, [(a, h)], c)]\<rparr>)"
proof -
  have best: "max 0 (dv - r * real_of_int c) \<le> u"
    if "0 \<le> x" "0 \<le> u" "dv \<le> r * x + u" "x \<le> real_of_int c" for x u :: real
  proof -
    from that(4) assms(1) have "r * x \<le> r * real_of_int c"
      by (rule mult_left_mono)
    with that show ?thesis by simp
  qed
  have "dv \<le> r * real_of_int c + max 0 (dv - r * real_of_int c)"
    by simp
  with assms best show ?thesis
    by (auto simp: optimal_solution_def feasible_def lp_objective_def single_zone_solver_def
        read_values_def)
qed

theorem unmet_monotone_witness:
  "(\<exists>lg res lg' res'.
      solve_allocation single_zone_solver [(1, 0, 18)] 5 2 True None = (lg, Inr res) \<and>
      solve_allocation single_zone_solver [(1, 0, 18)] 10 2 True None = (lg', Inr res') \<and>
      list_all (\<lambda>p. optimal_solution p (single_zone_solver p)) (lg @ lg') \<and>
      objective_unmet (summary_of res) = 8 \<and> objective_unmet (summary_of res') = 0 \<and>
      objective_unmet (summary_of res') \<le> objective_unmet (summary_of res)) \<and>
   (\<exists>lg res lg' res'.
      solve_allocation single_zone_solver [(1, 0, 18)] 5 1 True None = (lg, Inr res) \<and>
      solve_allocation single_zone_solver [(1, 0, 18)] 5 2 True None = (lg', Inr res') \<and>
      list_all (\<lambda>p. optimal_solution p (single_zone_solver p)) (lg @ lg') \<and>
      objective_unmet (summary_of res) = 13 \<and> objective_unmet (summary_of res') = 8 \<and>
      objective_unmet (summary_of res') \<le> objective_unmet (summary_of res)) \<and>
   (\<exists>lgm rows.
      marginal_value_per_hour single_zone_solver [(1, 0, 18)] 5 2 1 True = (lgm, Inr rows) \<and>
      list_all (\<lambda>p. optimal_solution p (single_zone_solver p)) lgm \<and>
      rows = [\<lparr>mv_hour = 0, deltaF_at_hour = 1, unmet_reduction = 2\<rparr>] \<and>
      list_all (\<lambda>row. 0 \<le> unmet_reduction row) rows)"
proof -
  let ?df = "[(1, 0, 18)] :: demand_table"
  let ?p = "\<lambda>F r. \<lparr>x_cat = LpInteger, x_vars = [(1, 0)], u_vars = [(1, 0)], objective = [(1, 0)],
                    cover = [((1, 0), r, 18)], fleetcap = [(0, [(1, 0)], F)]\<rparr>"
  have o: "optimal_solution (?p 5 2) (single_zone_solver (?p 5 2))"
      "optimal_solution (?p 10 2) (single_zone_solver (?p 10 2))"
      "optimal_solution (?p 5 1) (single_zone_solver (?p 5 1))"
      "optimal_solution (?p 6 2) (single_zone_solver (?p 6 2))"
    by (rule single_cell_optimal; simp)+
  have m: "model_of ?df F r True hc = ?p (eff_cap F hc 0) r" for F r hc
    by (simp add: model_of_def A_of_def H_of_def d_of_def)
  have c: "covers ?df"
    by (simp add: eval_defs)
  have u: "objective_unmet (summary_for single_zone_solver ?df True hc (r, F)) =
           max 0 (18 - r * real_of_int (eff_cap F hc 0))" for F r hc
    by (simp add: summary_for_def make_summary_def m row_of_def A_of_def H_of_def
        single_zone_solver_def read_values_def Let_def)
  have s: "\<exists>res. solve_allocation single_zone_solver ?df F r True hc = ([?p (eff_cap F hc 0) r], Inr res) \<and>
            objective_unmet (summary_of res) = max 0 (18 - r * real_of_int (eff_cap F hc 0))" for F r hc
    using solve_allocation_summary [OF c, of single_zone_solver F r True hc] u [of hc r F]
    by (auto simp: m)
  from s [of 5 2 None] obtain res1 where
    e1: "solve_allocation single_zone_solver ?df 5 2 True None = ([?p 5 2], Inr res1)"
    and v1: "objective_unmet (summary_of res1) = 8" by (auto simp: eff_cap_def)
  from s [of 10 2 None] obtain res2 where
    e2: "solve_allocation single_zone_solver ?df 10 2 True None = ([?p 10 2], Inr res2)"
    and v2: "objective_unmet (summary_of res2) = 0" by (auto simp: eff_cap_def)
  from s [of 5 1 None] obtain res3 where
    e3: "solve_allocation single_zone_solver ?df 5 1 True None = ([?p 5 1], Inr res3)"
    and v3: "objective_unmet (summary_of res3) = 13" by (auto simp: eff_cap_def)
  have em: "marginal_value_per_hour single_zone_solver ?df 5 2 1 True =
      ([?p 5 2, ?p 6 2], Inr [\<lparr>mv_hour = 0, deltaF_at_hour = 1, unmet_reduction = 2\<rparr>])"
    by (simp add: marginal_value_per_hour_def eval_defs single_zone_solver_def)
  note T = unmet_monotone [where solve = single_zone_solver and df = ?df and iv = True and hc = None]
  have o12: "\<forall>p \<in> set ([?p 5 2] @ [?p 10 2]). optimal_solution p (single_zone_solver p)"
    and o31: "\<forall>p \<in> set ([?p 5 1] @ [?p 5 2]). optimal_solution p (single_zone_solver p)"
    and om: "\<forall>p \<in> set [?p 5 2, ?p 6 2]. optimal_solution p (single_zone_solver p)"
    using o by simp_all
  have "objective_unmet (summary_of res2) \<le> objective_unmet (summary_of res1)"
    using T [THEN conjunct1, of 5 2 "[?p 5 2]" res1 10 "[?p 10 2]" res2] e1 e2 o12 by simp
  with e1 e2 o12 v1 v2 have first: "\<exists>lg res lg' res'.
      solve_allocation single_zone_solver ?df 5 2 True None = (lg, Inr res) \<and>
      solve_allocation single_zone_solver ?df 10 2 True None = (lg', Inr res') \<and>
      list_all (\<lambda>p. optimal_solution p (single_zone_solver p)) (lg @ lg') \<and>
      objective_unmet (summary_of res) = 8 \<and> objective_unmet (summary_of res') = 0 \<and>
      objective_unmet (summary_of res') \<le> objective_unmet (summary_of res)"
    by (simp add: list_all_iff)
  have "objective_unmet (summary_of res1) \<le> objective_unmet (summary_of res3)"
    using T [THEN conjunct2, THEN conjunct1, of 5 1 "[?p 5 1]" res3 2 "[?p 5 2]" res1] e3 e1 o31
    by simp
  with e1 e3 o31 v1 v3 have second: "\<exists>lg res lg' res'.
      solve_allocation single_zone_solver ?df 5 1 True None = (lg, Inr res) \<and>
      solve_allocation single_zone_solver ?df 5 2 True None = (lg', Inr res') \<and>
      list_all (\<lambda>p. optimal_solution p (single_zone_solver p)) (lg @ lg') \<and>
      objective_unmet (summary_of res) = 13 \<and> objective_unmet (summary_of res') = 8 \<and>
      objective_unmet (summary_of res') \<le> objective_unmet (summary_of res)"
    by (simp add: list_all_iff)
  have "\<forall>row \<in> set [\<lparr>mv_hour = 0, deltaF_at_hour = 1, unmet_reduction = 2\<rparr>]. 0 \<le> unmet_reduction row"
    using T [THEN conjunct2, THEN conjunct2, of 5 2 1 "[?p 5 2, ?p 6 2]"
        "[\<lparr>mv_hour = 0, deltaF_at_hour = 1, unmet_reduction = 2\<rparr>]"] em om
    by simp
  with em om have third: "\<exists>lgm rows.
      marginal_value_per_hour single_zone_solver ?df 5 2 1 True = (lgm, Inr rows) \<and>
      list_all (\<lambda>p. optimal_solution p (single_zone_solver p)) lgm \<and>
      rows = [\<lparr>mv_hour = 0, deltaF_at_hour = 1, unmet_reduction = 2\<rparr>] \<and>
      list_all (\<lambda>row. 0 \<le> unmet_reduction row) rows"
    by (simp add: list_all_iff)
  from first second third show ?thesis
    by blast
qed

section \<open>Properties of load_demand\<close>























end
